theory Spec2Isabelle
  imports Main "HOL-Library.Word"
begin

unbundle bit_operations_syntax

section \<open>Data model of p2p/server.go\<close>

text \<open>
  \<^verbatim>\<open>discover.NodeID\<close> is a fixed array of 64 bytes, compared with \<^verbatim>\<open>==\<close>: a 512-bit
  word. The zero value \<^verbatim>\<open>discover.NodeID{}\<close> is the word 0.
\<close>

type_synonym NodeID = "512 word"

text \<open>\<^verbatim>\<open>discover.Node\<close>: the node descriptor \<^verbatim>\<open>{ID, IP, UDP, TCP}\<close>.\<close>

record Node =
  ID :: NodeID
  IP :: "8 word list"
  UDP :: "16 word"
  TCP :: "16 word"

text \<open>
  The disconnect reasons that server.go names (the type is declared in another file of
  the package), and Go's \<^verbatim>\<open>error\<close> values: a disconnect reason, the package variable
  \<^verbatim>\<open>errServerStopped\<close>, or any other error (\<^verbatim>\<open>errors.New\<close>, \<^verbatim>\<open>fmt.Errorf\<close>, what a
  transport or the network returns), kept by its message. A \<^verbatim>\<open>nil\<close> error is \<open>None\<close>.
\<close>

datatype DiscReason =
    DiscReadTimeout
  | DiscUselessPeer
  | DiscTooManyPeers
  | DiscAlreadyConnected
  | DiscSelf
  | DiscUnexpectedIdentity
  | DiscQuitting

datatype error =
    Disc DiscReason
  | errServerStopped
  | errorString string

text \<open>
  \<^verbatim>\<open>type connFlag int\<close> with \<^verbatim>\<open>1 << iota\<close> constants. Only bitwise operations are applied
  to flags, so the two's complement integers of HOL behave as Go's \<^verbatim>\<open>int\<close> of any width.
\<close>

type_synonym connFlag = int

definition dynDialedConn :: connFlag where
  "dynDialedConn = push_bit 0 1"

definition staticDialedConn :: connFlag where
  "staticDialedConn = push_bit 1 1"

definition inboundConn :: connFlag where
  "inboundConn = push_bit 2 1"

definition trustedConn :: connFlag where
  "trustedConn = push_bit 3 1"

text \<open>A capability \<^verbatim>\<open>Cap{Name, Version}\<close> and a protocol, of which \<^verbatim>\<open>cap()\<close> keeps name and version.\<close>

datatype Cap = Cap (cap_Name: string) (cap_Version: nat)

datatype Protocol = Protocol (proto_Name: string) (proto_Version: nat) (proto_Length: nat)

definition cap :: "Protocol \<Rightarrow> Cap" where
  "cap p = Cap (proto_Name p) (proto_Version p)"

text \<open>
  \<^verbatim>\<open>conn\<close>: the socket (a handle), the flags, and what the two handshakes learn. The field
  \<^verbatim>\<open>id\<close> is written \<open>id'\<close>. The reply channel \<^verbatim>\<open>cont\<close> belongs to the connection and is
  identified with it. The run loop receives a pointer and sets a flag through it; here the
  handler returns the updated connection, and the setup driver goes on with that value.
\<close>

record conn =
  fd :: nat
  flags :: connFlag
  id' :: NodeID
  caps :: "Cap list"
  name :: string

definition conn_is :: "conn \<Rightarrow> connFlag \<Rightarrow> bool" where
  "conn_is c f \<longleftrightarrow> flags c AND f \<noteq> 0"

text \<open>
  Modelled from the spec: the \<^verbatim>\<open>Peer\<close> type and \<^verbatim>\<open>newPeer\<close> are declared in peer.go, which is
  not among the sources. The spec gives a peer as \<^verbatim>\<open>{connection, sub-protocol runners,
  disconnect reason}\<close>, created by the run loop from the connection and the configured
  protocols; \<^verbatim>\<open>p.ID()\<close> is the learned ID of its connection.
\<close>

record Peer =
  rw :: conn
  runners :: "Protocol list"

definition newPeer :: "conn \<Rightarrow> Protocol list \<Rightarrow> Peer" where
  "newPeer c protocols = \<lparr>rw = c, runners = protocols\<rparr>"

definition peer_ID :: "Peer \<Rightarrow> NodeID" where
  "peer_ID p = id' (rw p)"

text \<open>
  Modelled from the spec: \<^verbatim>\<open>countMatchingProtocols\<close> is defined in peer.go, which is not among
  the sources. The spec speaks of the \<^verbatim>\<open>(name, version)\<close> pairs that the configured protocols
  share with the remote's capabilities; the function counts, for each capability, the
  protocols with the same name and version.
\<close>

definition countMatchingProtocols :: "Protocol list \<Rightarrow> Cap list \<Rightarrow> int" where
  "countMatchingProtocols protocols cs =
     int (length (concat (map (\<lambda>c. filter (\<lambda>p. proto_Name p = cap_Name c \<and> proto_Version p = cap_Version c) protocols) cs)))"

text \<open>A channel is \<^verbatim>\<open>nil\<close> (never made), open, or closed.\<close>

datatype chan = ChanNil | ChanOpen | ChanClosed

text \<open>
  The listener: its address and whether it has been closed. The discovery table is used
  through \<^verbatim>\<open>Self()\<close> and \<^verbatim>\<open>Close()\<close> only.
\<close>

record Listener =
  addr_IP :: "8 word list"
  addr_Port :: int
  addr_String :: string
  addr_IsLoopback :: bool
  lis_closed :: bool

record discoverTable =
  tab_Self :: Node
  tab_closed :: bool

text \<open>
  \<^verbatim>\<open>ecdsa.PrivateKey\<close> embeds its public key (the coordinates X, Y). \<^verbatim>\<open>discover.PubkeyID\<close>,
  which derives the node ID from a public key, is not among the sources: every function
  that needs it takes it as the parameter \<open>PubkeyID\<close>.
\<close>

record PublicKey =
  X :: int
  Y :: int

record PrivateKey =
  PublicKey :: PublicKey
  D :: int

text \<open>
  \<^verbatim>\<open>protoHandshake\<close>: what the protocol handshake exchanges. Its version field is set from
  a constant of another file and read nowhere in server.go; it is left out.
\<close>

record protoHandshake =
  hs_Name :: string
  hs_ID :: NodeID
  hs_Caps :: "Cap list"

text \<open>
  \<^verbatim>\<open>Server\<close>: the configuration fields and the private state that \<^verbatim>\<open>Start\<close>, \<^verbatim>\<open>Stop\<close>,
  \<^verbatim>\<open>Self\<close> and the run loop use. \<^verbatim>\<open>loopWG\<close> is the counter of the wait group. The hooks
  \<^verbatim>\<open>newTransport\<close>, \<^verbatim>\<open>Dialer\<close> and \<^verbatim>\<open>NAT\<close> are kept as set or \<^verbatim>\<open>nil\<close>.
\<close>

record Server =
  PrivateKey :: "PrivateKey option"
  MaxPeers :: int
  MinConnectedPeers :: int
  MaxPendingPeers :: int
  Discovery :: bool
  Name :: string
  StaticNodes :: "Node list"
  TrustedNodes :: "Node list"
  Protocols :: "Protocol list"
  ListenAddr :: string
  NAT :: bool
  Dialer :: bool
  NoDial :: bool
  newTransport :: bool
  running :: bool
  ntab :: "discoverTable option"
  listener :: "Listener option"
  ourHandshake :: "protoHandshake option"
  peerOp :: chan
  peerOpDone :: chan
  quit :: chan
  addstatic :: chan
  posthandshake :: chan
  addpeer :: chan
  delpeer :: chan
  loopWG :: int

section \<open>Self and the admission checks\<close>

text \<open>\<^verbatim>\<open>net.ParseIP("0.0.0.0")\<close>: the 16-byte form of an IPv4 address.\<close>

definition zeroIP :: "8 word list" where
  "zeroIP = replicate 10 0 @ [255, 255] @ replicate 4 0"

text \<open>
  \<^verbatim>\<open>Server.Self\<close> (under the lock). A server that is not running returns a node with the
  zero ID. Dereferencing a \<^verbatim>\<open>nil\<close> private key panics: \<open>None\<close>.
\<close>

definition Self :: "(PublicKey \<Rightarrow> NodeID) \<Rightarrow> Server \<Rightarrow> Node option" where
  "Self PubkeyID srv =
     (if \<not> running srv then Some \<lparr>ID = 0, IP = zeroIP, UDP = 0, TCP = 0\<rparr>
      else case ntab srv of
        None \<Rightarrow>
          (case PrivateKey srv of
             None \<Rightarrow> None
           | Some prv \<Rightarrow>
               (case listener srv of
                  None \<Rightarrow> Some \<lparr>ID = PubkeyID (PublicKey prv), IP = zeroIP, UDP = 0, TCP = 0\<rparr>
                | Some l \<Rightarrow>
                    Some \<lparr>ID = PubkeyID (PublicKey prv), IP = addr_IP l, UDP = 0,
                          TCP = word_of_int (addr_Port l)\<rparr>))
      | Some t \<Rightarrow> Some (tab_Self t))"

text \<open>
  A call either returns a value or panics; the only panic of the admission checks is the
  \<^verbatim>\<open>nil\<close> dereference inside \<open>Self\<close>.
\<close>

datatype 'a outcome = Panics | Returns 'a

text \<open>
  \<^verbatim>\<open>Server.encHandshakeChecks\<close>: a \<^verbatim>\<open>switch\<close> whose cases are tried in order, so that
  \<open>Self\<close> is called only when the first two cases are false. \<^verbatim>\<open>len(peers)\<close> is the number
  of keys of the map.
\<close>

definition encHandshakeChecks ::
  "(PublicKey \<Rightarrow> NodeID) \<Rightarrow> Server \<Rightarrow> (NodeID \<rightharpoonup> Peer) \<Rightarrow> conn \<Rightarrow> error option outcome" where
  "encHandshakeChecks PubkeyID srv peers c =
     (if \<not> conn_is c (trustedConn OR staticDialedConn) \<and> int (card (dom peers)) \<ge> MaxPeers srv
        then Returns (Some (Disc DiscTooManyPeers))
      else if peers (id' c) \<noteq> None
        then Returns (Some (Disc DiscAlreadyConnected))
      else
        (case Self PubkeyID srv of
           None \<Rightarrow> Panics
         | Some self \<Rightarrow>
             if id' c = ID self then Returns (Some (Disc DiscSelf)) else Returns None))"

text \<open>\<^verbatim>\<open>Server.protoHandshakeChecks\<close>.\<close>

definition protoHandshakeChecks ::
  "(PublicKey \<Rightarrow> NodeID) \<Rightarrow> Server \<Rightarrow> (NodeID \<rightharpoonup> Peer) \<Rightarrow> conn \<Rightarrow> error option outcome" where
  "protoHandshakeChecks PubkeyID srv peers c =
     (if length (Protocols srv) > 0 \<and> countMatchingProtocols (Protocols srv) (caps c) = 0
        then Returns (Some (Disc DiscUselessPeer))
      else encHandshakeChecks PubkeyID srv peers c)"

text \<open>
  The admission checks in the words of the specification, to be compared with the code:
  the cap applies to a connection that is neither trusted nor static-dialed, each flag
  tested on its own, and \<open>self\<close> is the node that \<open>Self\<close> returns.
\<close>

definition encHandshakeChecks_spec :: "Server \<Rightarrow> Node \<Rightarrow> (NodeID \<rightharpoonup> Peer) \<Rightarrow> conn \<Rightarrow> error option" where
  "encHandshakeChecks_spec srv self peers c =
     (if int (card (dom peers)) \<ge> MaxPeers srv
          \<and> flags c AND trustedConn = 0 \<and> flags c AND staticDialedConn = 0
        then Some (Disc DiscTooManyPeers)
      else if id' c \<in> dom peers then Some (Disc DiscAlreadyConnected)
      else if id' c = ID self then Some (Disc DiscSelf)
      else None)"

section \<open>Start and Stop\<close>

text \<open>
  The workers that \<^verbatim>\<open>Start\<close> and \<^verbatim>\<open>startListening\<close> spawn, each after
  \<^verbatim>\<open>srv.loopWG.Add(1)\<close>: the run loop with the arguments of \<^verbatim>\<open>newDialState\<close>, the listen
  loop, and the NAT mapping.
\<close>

datatype goroutine =
    GoRun "Node list" "discoverTable option" int
  | GoListenLoop
  | GoNatMap

text \<open>
  \<^verbatim>\<open>Server.startListening\<close>; what \<^verbatim>\<open>net.Listen\<close> returns is the parameter \<open>netListen\<close>.
\<close>

definition startListening ::
  "(error + Listener) \<Rightarrow> Server \<Rightarrow> Server \<times> goroutine list \<times> error option" where
  "startListening netListen srv =
     (case netListen of
        Inl err \<Rightarrow> (srv, [], Some err)
      | Inr l \<Rightarrow>
          (let srv1 = srv\<lparr>ListenAddr := addr_String l, listener := Some l,
                         loopWG := loopWG srv + 1\<rparr>
           in if \<not> addr_IsLoopback l \<and> NAT srv
              then (srv1\<lparr>loopWG := loopWG srv1 + 1\<rparr>, [GoListenLoop, GoNatMap], None)
              else (srv1, [GoListenLoop], None)))"

text \<open>
  \<^verbatim>\<open>Server.Start\<close>, under the lock. The results of \<^verbatim>\<open>discover.ListenUDP\<close> and
  \<^verbatim>\<open>net.Listen\<close> are parameters. The result is the server afterwards, the workers spawned, and the error returned.
\<close>

definition Start ::
  "(PublicKey \<Rightarrow> NodeID) \<Rightarrow> (error + discoverTable) \<Rightarrow> (error + Listener) \<Rightarrow> Server
     \<Rightarrow> Server \<times> goroutine list \<times> error option" where
  "Start PubkeyID listenUDP netListen srv =
     (if running srv then (srv, [], Some (errorString ''server already running''))
      else
        (let srv1 = srv\<lparr>running := True\<rparr> in
         case PrivateKey srv1 of
           None \<Rightarrow> (srv1, [], Some (errorString ''Server.PrivateKey must be set to a non-nil key''))
         | Some prv \<Rightarrow>
             (let srv2 = srv1\<lparr>newTransport := True, Dialer := True,
                              quit := ChanOpen, addpeer := ChanOpen, delpeer := ChanOpen,
                              posthandshake := ChanOpen, addstatic := ChanOpen,
                              peerOp := ChanOpen, peerOpDone := ChanOpen\<rparr>
              in case (if Discovery srv2
                       then (case listenUDP of
                               Inl err \<Rightarrow> Inl err
                             | Inr t \<Rightarrow> Inr (srv2\<lparr>ntab := Some t\<rparr>))
                       else Inr srv2) of
                   Inl err \<Rightarrow> (srv2, [], Some err)
                 | Inr srv3 \<Rightarrow>
                     (let dynPeers = (if \<not> Discovery srv3 then 0 else MinConnectedPeers srv3);
                          srv4 = srv3\<lparr>ourHandshake :=
                                    Some \<lparr>hs_Name = Name srv3, hs_ID = PubkeyID (PublicKey prv),
                                          hs_Caps = map cap (Protocols srv3)\<rparr>\<rparr>
                      in case (if ListenAddr srv4 \<noteq> []
                               then startListening netListen srv4
                               else (srv4, [], None)) of
                           (srv5, gs, Some err) \<Rightarrow> (srv5, gs, Some err)
                         | (srv5, gs, None) \<Rightarrow>
                             (srv5\<lparr>loopWG := loopWG srv5 + 1, running := True\<rparr>,
                              gs @ [GoRun (StaticNodes srv5) (ntab srv5) dynPeers],
                              None)))))"

text \<open>
  \<^verbatim>\<open>Server.Stop\<close>, under the lock, statement by statement. Go's \<^verbatim>\<open>close\<close> panics on a
  \<^verbatim>\<open>nil\<close> channel and on a closed one; the deferred unlock still runs. The function has
  no statement that reads or waits on \<^verbatim>\<open>loopWG\<close>. The result is the server afterwards and
  the panic, if any.
\<close>

datatype panic = CloseOfNilChannel | CloseOfClosedChannel

definition Stop :: "Server \<Rightarrow> Server \<times> panic option" where
  "Stop srv =
     (if \<not> running srv then (srv, None)
      else
        (let srv1 = srv\<lparr>running := False\<rparr>;
             srv2 = (case listener srv1 of
                       None \<Rightarrow> srv1
                     | Some l \<Rightarrow> srv1\<lparr>listener := Some (l\<lparr>lis_closed := True\<rparr>)\<rparr>)
         in case quit srv2 of
              ChanNil \<Rightarrow> (srv2, Some CloseOfNilChannel)
            | ChanClosed \<Rightarrow> (srv2, Some CloseOfClosedChannel)
            | ChanOpen \<Rightarrow> (srv2\<lparr>quit := ChanClosed\<rparr>, None)))"

section \<open>The run loop\<close>

text \<open>
  \<^verbatim>\<open>Server.run\<close> owns the peer map, the trusted map and the two task lists. The \<^verbatim>\<open>dialer\<close>
  is an interface, implemented elsewhere: its three methods are the fields of a record,
  acting on a planner state of any type \<open>'d\<close>; tasks are of any type \<open>'t\<close>, compared
  with \<^verbatim>\<open>==\<close>. Times (\<^verbatim>\<open>time.Now()\<close>) are inputs.
\<close>

type_synonym time = int

record ('d, 't) dialer =
  newTasks :: "'d \<Rightarrow> int \<Rightarrow> (NodeID \<rightharpoonup> Peer) \<Rightarrow> time \<Rightarrow> 't list \<times> 'd"
  taskDone :: "'d \<Rightarrow> 't \<Rightarrow> time \<Rightarrow> 'd"
  addStatic :: "'d \<Rightarrow> Node \<Rightarrow> 'd"

record ('d, 't) run_state =
  peers :: "NodeID \<rightharpoonup> Peer"
  trusted :: "NodeID \<rightharpoonup> bool"
  runningTasks :: "'t list"
  queuedTasks :: "'t list"
  dialstate :: 'd

definition maxActiveDialTasks :: nat where
  "maxActiveDialTasks = 16"

text \<open>
  The two closures that \<^verbatim>\<open>Peers\<close> and \<^verbatim>\<open>PeerCount\<close> send on \<^verbatim>\<open>peerOp\<close> (no other function
  sends on it); both only read the map.
\<close>

datatype peerOpFunc = OpPeers | OpPeerCount

text \<open>
  What one iteration does besides updating its own variables, in program order: workers
  spawned (each after \<^verbatim>\<open>loopWG.Add(1)\<close>), the writes to the peer map, the sends on
  \<^verbatim>\<open>c.cont\<close> and \<^verbatim>\<open>peerOpDone\<close>, the results the closures leave in their callers'
  variables, and the calls of the spindown.
\<close>

datatype 't effect =
    WG_Add
  | Go_task 't
  | Go_runPeer Peer
  | Store_peer NodeID Peer
  | Delete_peer NodeID
  | Send_cont conn "error option"
  | Send_peerOpDone
  | Result_Peers "Peer set"
  | Result_PeerCount int
  | Disconnect_all "Peer set" DiscReason
  | Close_ntab

datatype 't event =
    Quit
  | Addstatic Node
  | PeerOp peerOpFunc
  | Taskdone 't
  | Posthandshake conn
  | Addpeer conn
  | Delpeer Peer

text \<open>
  The initial variables of \<^verbatim>\<open>run\<close>: an empty peer map, and the trusted map filled from
  \<^verbatim>\<open>srv.TrustedNodes\<close>.
\<close>

definition run_init :: "Server \<Rightarrow> 'd \<Rightarrow> ('d, 't) run_state" where
  "run_init srv d =
     \<lparr>peers = Map.empty,
      trusted = fold (\<lambda>n m. m(ID n \<mapsto> True)) (TrustedNodes srv) Map.empty,
      runningTasks = [], queuedTasks = [], dialstate = d\<rparr>"

text \<open>\<^verbatim>\<open>delTask\<close>: removes the first entry equal to \<open>t\<close>.\<close>

definition delTask :: "'t \<Rightarrow> 't list \<Rightarrow> 't list" where
  "delTask t rt = remove1 t rt"

text \<open>
  \<^verbatim>\<open>startTasks\<close>: starts tasks of \<open>ts\<close> while fewer than \<^verbatim>\<open>maxActiveDialTasks\<close> run; the
  result is the new list of running tasks, the tasks not started, and the effects.
\<close>

fun startTasks :: "'t list \<Rightarrow> 't list \<Rightarrow> 't list \<times> 't list \<times> 't effect list" where
  "startTasks rt [] = (rt, [], [])"
| "startTasks rt (t # ts) =
     (if length rt < maxActiveDialTasks
      then (case startTasks (rt @ [t]) ts of
              (rt', rest, es) \<Rightarrow> (rt', rest, WG_Add # Go_task t # es))
      else (rt, t # ts, []))"

text \<open>\<^verbatim>\<open>scheduleTasks\<close>; it reads \<^verbatim>\<open>srv.running\<close> and the time.\<close>

definition scheduleTasks ::
  "('d, 't) dialer \<Rightarrow> Server \<Rightarrow> time \<Rightarrow> ('d, 't) run_state
     \<Rightarrow> ('d, 't) run_state \<times> 't effect list" where
  "scheduleTasks dl srv now s =
     (if \<not> running srv then (s, [])
      else
        (case startTasks (runningTasks s) (queuedTasks s) of
           (rt1, rest1, es1) \<Rightarrow>
             if length rt1 < maxActiveDialTasks
             then (case newTasks dl (dialstate s) (int (length rt1) + int (length rest1))
                          (peers s) now of
                     (nt, d') \<Rightarrow>
                       (case startTasks rt1 nt of
                          (rt2, rest2, es2) \<Rightarrow>
                            (s\<lparr>runningTasks := rt2, queuedTasks := rest1 @ rest2,
                               dialstate := d'\<rparr>,
                             es1 @ es2)))
             else (s\<lparr>runningTasks := rt1, queuedTasks := rest1\<rparr>, es1)))"

text \<open>
  The \<^verbatim>\<open>posthandshake\<close> case: first the statement that sets the trusted flag through the
  pointer (\<^verbatim>\<open>trusted[c.id]\<close> is false for an absent key), then the checks on the updated
  connection, whose result is sent on \<^verbatim>\<open>c.cont\<close>.
\<close>

definition set_trusted_flag :: "('d, 't) run_state \<Rightarrow> conn \<Rightarrow> conn" where
  "set_trusted_flag s c =
     (if trusted s (id' c) = Some True then c\<lparr>flags := flags c OR trustedConn\<rparr> else c)"

definition posthandshake_case ::
  "(PublicKey \<Rightarrow> NodeID) \<Rightarrow> Server \<Rightarrow> ('d, 't) run_state \<Rightarrow> conn
     \<Rightarrow> (('d, 't) run_state \<times> 't effect list) outcome" where
  "posthandshake_case PubkeyID srv s c =
     (let c' = set_trusted_flag s c in
      case encHandshakeChecks PubkeyID srv (peers s) c' of
        Panics \<Rightarrow> Panics
      | Returns err \<Rightarrow> Returns (s, [Send_cont c' err]))"

text \<open>The \<^verbatim>\<open>addpeer\<close> case.\<close>

definition addpeer_case ::
  "(PublicKey \<Rightarrow> NodeID) \<Rightarrow> Server \<Rightarrow> ('d, 't) run_state \<Rightarrow> conn
     \<Rightarrow> (('d, 't) run_state \<times> 't effect list) outcome" where
  "addpeer_case PubkeyID srv s c =
     (case protoHandshakeChecks PubkeyID srv (peers s) c of
        Panics \<Rightarrow> Panics
      | Returns (Some e) \<Rightarrow> Returns (s, [Send_cont c (Some e)])
      | Returns None \<Rightarrow>
          (let p = newPeer c (Protocols srv) in
           Returns (s\<lparr>peers := (peers s)(id' c \<mapsto> p)\<rparr>,
                    [Store_peer (id' c) p, WG_Add, Go_runPeer p, Send_cont c None])))"

text \<open>
  The \<^verbatim>\<open>select\<close> of one iteration, for every case but \<^verbatim>\<open>quit\<close>; \<open>now\<close> is the time read
  at the top of the iteration.
\<close>

fun select_case ::
  "('d, 't) dialer \<Rightarrow> (PublicKey \<Rightarrow> NodeID) \<Rightarrow> Server \<Rightarrow> time \<Rightarrow> 't event
     \<Rightarrow> ('d, 't) run_state \<Rightarrow> (('d, 't) run_state \<times> 't effect list) outcome" where
  "select_case dl PubkeyID srv now Quit s = Returns (s, [])"
| "select_case dl PubkeyID srv now (Addstatic n) s =
     Returns (s\<lparr>dialstate := addStatic dl (dialstate s) n\<rparr>, [])"
| "select_case dl PubkeyID srv now (PeerOp OpPeers) s =
     Returns (s, [Result_Peers (ran (peers s)), Send_peerOpDone])"
| "select_case dl PubkeyID srv now (PeerOp OpPeerCount) s =
     Returns (s, [Result_PeerCount (int (card (dom (peers s)))), Send_peerOpDone])"
| "select_case dl PubkeyID srv now (Taskdone t) s =
     Returns (s\<lparr>dialstate := taskDone dl (dialstate s) t now,
                runningTasks := delTask t (runningTasks s)\<rparr>, [])"
| "select_case dl PubkeyID srv now (Posthandshake c) s = posthandshake_case PubkeyID srv s c"
| "select_case dl PubkeyID srv now (Addpeer c) s = addpeer_case PubkeyID srv s c"
| "select_case dl PubkeyID srv now (Delpeer p) s =
     Returns (s\<lparr>peers := (peers s)(peer_ID p := None)\<rparr>, [Delete_peer (peer_ID p)])"

text \<open>
  One iteration of the loop: \<^verbatim>\<open>scheduleTasks\<close> (which reads the time again, \<open>now'\<close>),
  then the selected case.
\<close>

definition iteration ::
  "('d, 't) dialer \<Rightarrow> (PublicKey \<Rightarrow> NodeID) \<Rightarrow> Server \<Rightarrow> time \<times> time \<times> 't event
     \<Rightarrow> ('d, 't) run_state \<Rightarrow> (('d, 't) run_state \<times> 't effect list) outcome" where
  "iteration dl PubkeyID srv inp s =
     (case inp of
        (now, now', ev) \<Rightarrow>
          (case scheduleTasks dl srv now' s of
             (s1, es1) \<Rightarrow>
               (case select_case dl PubkeyID srv now ev s1 of
                  Panics \<Rightarrow> Panics
                | Returns (s2, es2) \<Rightarrow> Returns (s2, es1 @ es2))))"

text \<open>
  The spindown after \<^verbatim>\<open>break running\<close>: the peers received on \<^verbatim>\<open>delpeer\<close> are deleted
  until the map is empty.
\<close>

fun spindown :: "('d, 't) run_state \<Rightarrow> Peer list \<Rightarrow> ('d, 't) run_state \<times> 't effect list" where
  "spindown s [] = (s, [])"
| "spindown s (p # ps) =
     (if card (dom (peers s)) > 0
      then (case spindown (s\<lparr>peers := (peers s)(peer_ID p := None)\<rparr>) ps of
              (s', es) \<Rightarrow> (s', Delete_peer (peer_ID p) # es))
      else (s, []))"

fun delpeers :: "(time \<times> time \<times> 't event) list \<Rightarrow> Peer list" where
  "delpeers [] = []"
| "delpeers ((now, now', Delpeer p) # rest) = p # delpeers rest"
| "delpeers (inp # rest) = delpeers rest"

text \<open>
  \<^verbatim>\<open>Server.run\<close> on the sequence of what its \<^verbatim>\<open>select\<close> statements receive, each with the
  two times read in that iteration, for a server whose fields no other goroutine writes
  in the meantime: every iteration reads the same server. With no input left the result
  is the state as the last case left it, with the effects so far; the \<^verbatim>\<open>scheduleTasks\<close>
  that the loop still runs before it blocks in \<^verbatim>\<open>select\<close> is not part of it. After
  \<^verbatim>\<open>quit\<close> only \<^verbatim>\<open>delpeer\<close> is received. Both restrictions are lifted in \<open>run_live\<close>
  below.
\<close>

fun run ::
  "('d, 't) dialer \<Rightarrow> (PublicKey \<Rightarrow> NodeID) \<Rightarrow> Server \<Rightarrow> ('d, 't) run_state
     \<Rightarrow> (time \<times> time \<times> 't event) list \<Rightarrow> (('d, 't) run_state \<times> 't effect list) outcome" where
  "run dl PubkeyID srv s [] = Returns (s, [])"
| "run dl PubkeyID srv s ((now, now', ev) # rest) =
     (case iteration dl PubkeyID srv (now, now', ev) s of
        Panics \<Rightarrow> Panics
      | Returns (s1, es1) \<Rightarrow>
          if ev = Quit
          then (case spindown s1 (delpeers rest) of
                  (s2, es2) \<Rightarrow>
                    Returns (s2, es1 @ [Disconnect_all (ran (peers s1)) DiscQuitting]
                                  @ (if ntab srv \<noteq> None then [Close_ntab] else []) @ es2))
          else (case run dl PubkeyID srv s1 rest of
                  Panics \<Rightarrow> Panics
                | Returns (s2, es2) \<Rightarrow> Returns (s2, es1 @ es2)))"






text \<open>
  The entries of the peer map that count against the cap: the peers whose connection is
  neither trusted nor static-dialed. A state is within the cap when there are at most
  \<^verbatim>\<open>MaxPeers\<close> of them.
\<close>

definition capped_peers :: "(NodeID \<rightharpoonup> Peer) \<Rightarrow> NodeID set" where
  "capped_peers ps =
     {k. case ps k of
           None \<Rightarrow> False
         | Some p \<Rightarrow> \<not> conn_is (rw p) (trustedConn OR staticDialedConn)}"

definition within_cap :: "Server \<Rightarrow> ('d, 't) run_state \<Rightarrow> bool" where
  "within_cap srv s \<longleftrightarrow> int (card (capped_peers (peers s))) \<le> MaxPeers srv"

text \<open>
  The cap as a property of the peer map alone, with the finiteness that counting needs.
\<close>

definition cap_inv :: "int \<Rightarrow> (NodeID \<rightharpoonup> Peer) \<Rightarrow> bool" where
  "cap_inv m ps \<longleftrightarrow> finite (dom ps) \<and> int (card (capped_peers ps)) \<le> m"

section \<open>The setup driver\<close>

text \<open>
  \<^verbatim>\<open>Server.checkpoint\<close> is a rendezvous with the run loop. Either \<^verbatim>\<open>srv.quit\<close> wins one of
  its two \<^verbatim>\<open>select\<close> statements, and it returns \<^verbatim>\<open>errServerStopped\<close>; or the run loop
  receives the connection in some state \<open>s\<close> of its own, runs the case of that stage, and
  the checkpoint returns what that case sends on \<^verbatim>\<open>c.cont\<close>. The connection comes back as
  the run loop left it.
\<close>

datatype stage = Stage_posthandshake | Stage_addpeer

datatype ('d, 't) rendezvous = Stopped | Handled "('d, 't) run_state"

fun cont_reply :: "'t effect list \<Rightarrow> (conn \<times> error option) option" where
  "cont_reply [] = None"
| "cont_reply (Send_cont c err # es) = Some (c, err)"
| "cont_reply (e # es) = cont_reply es"

definition checkpoint ::
  "(PublicKey \<Rightarrow> NodeID) \<Rightarrow> Server \<Rightarrow> conn \<Rightarrow> stage \<Rightarrow> ('d, 't) rendezvous
     \<Rightarrow> (conn \<times> error option) outcome" where
  "checkpoint PubkeyID srv c st r =
     (case r of
        Stopped \<Rightarrow> Returns (c, Some errServerStopped)
      | Handled s \<Rightarrow>
          (case (case st of
                   Stage_posthandshake \<Rightarrow> posthandshake_case PubkeyID srv s c
                 | Stage_addpeer \<Rightarrow> addpeer_case PubkeyID srv s c) of
             Panics \<Rightarrow> Panics
           | Returns (s', es) \<Rightarrow>
               (case cont_reply es of
                  None \<Rightarrow> Returns (c, Some errServerStopped)
                | Some (c', err) \<Rightarrow> Returns (c', err))))"

text \<open>
  What \<^verbatim>\<open>setupConn\<close> does, in program order: the transport is made, the watchdog is
  started, the handshakes are run, the checkpoints are called, the connection is closed
  with an error.
\<close>

datatype setup_effect =
    New_transport
  | Go_watchdog
  | DoEncHandshake
  | DoProtoHandshake
  | Checkpoint stage
  | Conn_close error

text \<open>
  \<^verbatim>\<open>Server.setupConn\<close>. The transport is an interface: what its two handshakes return are
  the parameters \<open>enc\<close> (the ID and the error, both assigned) and \<open>proto\<close>; what happens
  at the two checkpoints are the parameters \<open>r1\<close> and \<open>r2\<close>. Calling a \<^verbatim>\<open>nil\<close>
  \<^verbatim>\<open>newTransport\<close> panics.
\<close>

definition setupConn ::
  "(PublicKey \<Rightarrow> NodeID) \<Rightarrow> Server \<Rightarrow> nat \<Rightarrow> connFlag \<Rightarrow> Node option
     \<Rightarrow> NodeID \<times> error option \<Rightarrow> error + protoHandshake
     \<Rightarrow> ('d, 't) rendezvous \<Rightarrow> ('d, 't) rendezvous \<Rightarrow> setup_effect list outcome" where
  "setupConn PubkeyID srv fd0 fl dialDest enc proto r1 r2 =
     (if \<not> newTransport srv then Panics
      else if \<not> running srv then Returns [New_transport, Conn_close errServerStopped]
      else
        (let c1 = \<lparr>fd = fd0, flags = fl, id' = fst enc, caps = [], name = []\<rparr>;
             tr1 = [New_transport, Go_watchdog, DoEncHandshake]
         in case snd enc of
              Some err \<Rightarrow> Returns (tr1 @ [Conn_close err])
            | None \<Rightarrow>
                if (case dialDest of None \<Rightarrow> False | Some n \<Rightarrow> id' c1 \<noteq> ID n)
                then Returns (tr1 @ [Conn_close (Disc DiscUnexpectedIdentity)])
                else
                  (case checkpoint PubkeyID srv c1 Stage_posthandshake r1 of
                     Panics \<Rightarrow> Panics
                   | Returns (c2, Some err) \<Rightarrow>
                       Returns (tr1 @ [Checkpoint Stage_posthandshake, Conn_close err])
                   | Returns (c2, None) \<Rightarrow>
                       (let tr2 = tr1 @ [Checkpoint Stage_posthandshake, DoProtoHandshake]
                        in case proto of
                             Inl err \<Rightarrow> Returns (tr2 @ [Conn_close err])
                           | Inr phs \<Rightarrow>
                               if hs_ID phs \<noteq> id' c2
                               then Returns (tr2 @ [Conn_close (Disc DiscUnexpectedIdentity)])
                               else
                                 (let c3 = c2\<lparr>caps := hs_Caps phs, name := hs_Name phs\<rparr>
                                  in case checkpoint PubkeyID srv c3 Stage_addpeer r2 of
                                       Panics \<Rightarrow> Panics
                                     | Returns (c4, Some err) \<Rightarrow>
                                         Returns (tr2 @ [Checkpoint Stage_addpeer, Conn_close err])
                                     | Returns (c4, None) \<Rightarrow>
                                         Returns (tr2 @ [Checkpoint Stage_addpeer]))))))"

text \<open>
  The two identity mismatches that \<^verbatim>\<open>setupConn\<close> tests: the ID learned in the
  encryption handshake against the ID of the dialed node, if a node was dialed, and the
  ID that a completed protocol handshake advertises against the learned ID.
\<close>

definition dial_identity_mismatch :: "Node option \<Rightarrow> NodeID \<Rightarrow> bool" where
  "dial_identity_mismatch dialDest learned =
     (case dialDest of None \<Rightarrow> False | Some n \<Rightarrow> learned \<noteq> ID n)"

definition proto_identity_mismatch :: "error + protoHandshake \<Rightarrow> NodeID \<Rightarrow> bool" where
  "proto_identity_mismatch proto learned =
     (case proto of Inl err \<Rightarrow> False | Inr phs \<Rightarrow> hs_ID phs \<noteq> learned)"

section \<open>Concrete inputs\<close>

text \<open>
  A stand-in for \<^verbatim>\<open>discover.PubkeyID\<close> (the two coordinates side by side), a key, and a
  server configured with \<^verbatim>\<open>MaxPeers = 1\<close>, one trusted node and one protocol, neither
  listening nor discovering; the same server after a successful \<^verbatim>\<open>Start\<close>, and without
  its key.
\<close>

definition example_PubkeyID :: "PublicKey \<Rightarrow> NodeID" where
  "example_PubkeyID pub = word_of_int (X pub) * 2 ^ 256 + word_of_int (Y pub)"

definition example_key :: PrivateKey where
  "example_key = \<lparr>PublicKey = \<lparr>X = 1, Y = 2\<rparr>, D = 3\<rparr>"

definition example_server :: Server where
  "example_server =
     \<lparr>PrivateKey = Some example_key, MaxPeers = 1, MinConnectedPeers = 0, MaxPendingPeers = 0,
      Discovery = False, Name = ''node'', StaticNodes = [],
      TrustedNodes = [\<lparr>ID = 7, IP = [10, 0, 0, 7], UDP = 0, TCP = 30303\<rparr>],
      Protocols = [Protocol ''eth'' 65 17], ListenAddr = [], NAT = False, Dialer = False,
      NoDial = False, newTransport = False, running = False, ntab = None, listener = None,
      ourHandshake = None, peerOp = ChanNil, peerOpDone = ChanNil, quit = ChanNil,
      addstatic = ChanNil, posthandshake = ChanNil, addpeer = ChanNil, delpeer = ChanNil,
      loopWG = 0\<rparr>"

definition example_started :: Server where
  "example_started =
     example_server\<lparr>Dialer := True, newTransport := True, running := True,
       ourHandshake := Some \<lparr>hs_Name = ''node'', hs_ID = example_PubkeyID \<lparr>X = 1, Y = 2\<rparr>,
                              hs_Caps = [Cap ''eth'' 65]\<rparr>,
       peerOp := ChanOpen, peerOpDone := ChanOpen, quit := ChanOpen, addstatic := ChanOpen,
       posthandshake := ChanOpen, addpeer := ChanOpen, delpeer := ChanOpen, loopWG := 1\<rparr>"

definition example_keyless :: Server where
  "example_keyless = example_server\<lparr>PrivateKey := None\<rparr>"

text \<open>An inbound connection whose encryption handshake learned the ID \<open>n\<close>.\<close>

definition example_conn :: "NodeID \<Rightarrow> conn" where
  "example_conn n = \<lparr>fd = 3, flags = inboundConn, id' = n, caps = [], name = []\<rparr>"

text \<open>
  A dialer that never has a task, a run of the loop in which the inbound connection 5
  passes both checkpoints, the state and the effects of that run, and an inbound
  connection from the trusted node 7 as it reaches the second checkpoint.
\<close>

definition example_dialer :: "(unit, nat) dialer" where
  "example_dialer =
     \<lparr>newTasks = (\<lambda>d n ps now. ([], d)), taskDone = (\<lambda>d t now. d), addStatic = (\<lambda>d n. d)\<rparr>"

definition example_admitted :: conn where
  "example_admitted = (example_conn 5)\<lparr>caps := [Cap ''eth'' 65], name := ''five''\<rparr>"

definition example_state :: "(unit, nat) run_state" where
  "example_state =
     \<lparr>peers = [5 \<mapsto> newPeer example_admitted [Protocol ''eth'' 65 17]],
      trusted = [7 \<mapsto> True], runningTasks = [], queuedTasks = [], dialstate = ()\<rparr>"

definition example_inputs :: "(time \<times> time \<times> nat event) list" where
  "example_inputs =
     [(10, 11, Posthandshake (example_conn 5)), (20, 21, Addpeer example_admitted)]"

definition example_effects :: "nat effect list" where
  "example_effects =
     [Send_cont (example_conn 5) None,
      Store_peer 5 (newPeer example_admitted [Protocol ''eth'' 65 17]), WG_Add,
      Go_runPeer (newPeer example_admitted [Protocol ''eth'' 65 17]),
      Send_cont example_admitted None]"

definition example_trusted :: conn where
  "example_trusted =
     (example_conn 7)\<lparr>flags := flags (example_conn 7) OR trustedConn,
                       caps := [Cap ''eth'' 65], name := ''seven''\<rparr>"






section \<open>Properties of the admission checks\<close>

lemma conn_is_trusted_or_static:
  "conn_is c (trustedConn OR staticDialedConn)
     \<longleftrightarrow> flags c AND trustedConn \<noteq> 0 \<or> flags c AND staticDialedConn \<noteq> 0"
  by (simp add: conn_is_def bit.conj_disj_distrib or_eq_0_iff)

lemma Self_example_started:
  "Self example_PubkeyID example_started =
     Some \<lparr>ID = example_PubkeyID \<lparr>X = 1, Y = 2\<rparr>, IP = zeroIP, UDP = 0, TCP = 0\<rparr>"
  by (simp add: Self_def example_started_def example_server_def example_key_def)

text \<open>
  C3. For every peer map and connection, \<^verbatim>\<open>encHandshakeChecks\<close> returns the first result
  that applies, in this order: \<^verbatim>\<open>DiscTooManyPeers\<close> if the connection is neither trusted
  nor static-dialed and the map has at least \<^verbatim>\<open>MaxPeers\<close> entries; else
  \<^verbatim>\<open>DiscAlreadyConnected\<close> if the map holds the learned ID; else \<^verbatim>\<open>DiscSelf\<close> if the learned
  ID is the ID of the node that \<^verbatim>\<open>Self\<close> returns; else \<^verbatim>\<open>nil\<close>. The code, which tests both
  flags with one mask, agrees with the ordered checks written out from the specification.
\<close>

theorem encHandshakeChecks_order:
  assumes "Self PubkeyID srv = Some self"
  shows "encHandshakeChecks PubkeyID srv ps c = Returns (encHandshakeChecks_spec srv self ps c)"
  using assms
  by (auto simp add: encHandshakeChecks_def encHandshakeChecks_spec_def conn_is_trusted_or_static)

theorem encHandshakeChecks_order_witness:
  "Self example_PubkeyID example_started =
     Some \<lparr>ID = example_PubkeyID \<lparr>X = 1, Y = 2\<rparr>, IP = zeroIP, UDP = 0, TCP = 0\<rparr>
   \<and> encHandshakeChecks example_PubkeyID example_started
        [5 \<mapsto> newPeer (example_conn 5) []] (example_conn 9)
      = Returns (Some (Disc DiscTooManyPeers))"
proof -
  have v: "encHandshakeChecks_spec example_started
             \<lparr>ID = example_PubkeyID \<lparr>X = 1, Y = 2\<rparr>, IP = zeroIP, UDP = 0, TCP = 0\<rparr>
             [5 \<mapsto> newPeer (example_conn 5) []] (example_conn 9)
           = Some (Disc DiscTooManyPeers)"
    by (simp add: encHandshakeChecks_spec_def example_started_def example_server_def
          example_conn_def inboundConn_def trustedConn_def staticDialedConn_def)
  show ?thesis
    using encHandshakeChecks_order [OF Self_example_started,
            of "[5 \<mapsto> newPeer (example_conn 5) []]" "example_conn 9"]
    by (simp only: v Self_example_started)
qed

lemma same_pair_iff:
  "(proto_Name p = cap_Name c \<and> proto_Version p = cap_Version c) = (cap p = c)"
  by (cases c) (auto simp add: cap_def)

lemma countMatchingProtocols_zero:
  "countMatchingProtocols protocols cs = 0 \<longleftrightarrow> set (map cap protocols) \<inter> set cs = {}"
proof -
  have "countMatchingProtocols protocols cs = 0
          \<longleftrightarrow> (\<forall>c \<in> set cs. \<forall>p \<in> set protocols. cap p \<noteq> c)"
    unfolding countMatchingProtocols_def same_pair_iff by (simp add: filter_empty_conv)
  also have "\<dots> \<longleftrightarrow> set (map cap protocols) \<inter> set cs = {}"
    by auto
  finally show ?thesis .
qed

text \<open>
  C4. For every peer map and connection, \<^verbatim>\<open>protoHandshakeChecks\<close> returns
  \<^verbatim>\<open>DiscUselessPeer\<close> if the configured protocol list is not empty and no capability of a
  configured protocol, a (name, version) pair, is among the capabilities the connection
  advertised; otherwise it returns what \<^verbatim>\<open>encHandshakeChecks\<close> returns on the same peer map.
\<close>

theorem protoHandshakeChecks_useless_or_enc:
  "protoHandshakeChecks PubkeyID srv ps c =
     (if Protocols srv \<noteq> [] \<and> set (map cap (Protocols srv)) \<inter> set (caps c) = {}
      then Returns (Some (Disc DiscUselessPeer))
      else encHandshakeChecks PubkeyID srv ps c)"
  by (simp add: protoHandshakeChecks_def countMatchingProtocols_zero)

section \<open>Properties of Start and Stop\<close>

lemma Start_example_server:
  "Start example_PubkeyID listenUDP netListen example_server =
     (example_started, [GoRun [] None 0], None)"
  by (simp add: Start_def Let_def example_server_def example_started_def example_key_def
        cap_def)

text \<open>
  C9. \<^verbatim>\<open>Stop\<close> is idempotent: after a successful \<^verbatim>\<open>Start\<close>, the first \<^verbatim>\<open>Stop\<close> returns
  without a panic, leaving the server not running and \<^verbatim>\<open>quit\<close> closed; the second \<^verbatim>\<open>Stop\<close>
  finds \<^verbatim>\<open>running\<close> false and returns the server as it is (listener and \<^verbatim>\<open>quit\<close> untouched),
  again without a panic.
\<close>

theorem Stop_idempotent:
  assumes "Start PubkeyID listenUDP netListen srv = (srv1, gs, None)"
  shows "snd (Stop srv1) = None \<and> \<not> running (fst (Stop srv1))
         \<and> quit (fst (Stop srv1)) = ChanClosed
         \<and> Stop (fst (Stop srv1)) = (fst (Stop srv1), None)"
proof -
  from assms have "running srv1 \<and> quit srv1 = ChanOpen"
    by (auto simp add: Start_def startListening_def Let_def
             split: if_splits option.splits sum.splits prod.splits)
  then show ?thesis
    by (simp add: Stop_def Let_def split: option.splits)
qed

theorem Stop_idempotent_witness:
  "Start example_PubkeyID (Inl errServerStopped) (Inl errServerStopped) example_server
     = (example_started, [GoRun [] None 0], None)
   \<and> Stop example_started = (example_started\<lparr>running := False, quit := ChanClosed\<rparr>, None)
   \<and> Stop (example_started\<lparr>running := False, quit := ChanClosed\<rparr>)
       = (example_started\<lparr>running := False, quit := ChanClosed\<rparr>, None)"
proof -
  have st: "Stop example_started = (example_started\<lparr>running := False, quit := ChanClosed\<rparr>, None)"
    by (simp add: Stop_def Let_def example_started_def example_server_def)
  show ?thesis
    using Stop_idempotent [OF Start_example_server
            [of "Inl errServerStopped" "Inl errServerStopped"]]
    by (simp add: st Start_example_server)
qed

text \<open>
  C10. \<^verbatim>\<open>Start\<close> is not atomic on failure. On a server that is not running and has no
  private key, \<^verbatim>\<open>Start\<close> returns the missing-key error and leaves \<^verbatim>\<open>running\<close> true; every
  later call of \<^verbatim>\<open>Start\<close>, whatever the network does, returns "server already running"
  and changes nothing; and \<^verbatim>\<open>Stop\<close> then does not take its early return: it clears
  \<^verbatim>\<open>running\<close>, closes the listener if there is one, and calls \<^verbatim>\<open>close\<close> on the \<^verbatim>\<open>quit\<close>
  channel, which is still \<^verbatim>\<open>nil\<close> (in Go that call panics).
\<close>

theorem Start_not_atomic:
  assumes "\<not> running srv" and "PrivateKey srv = None" and "quit srv = ChanNil"
  shows "Start PubkeyID listenUDP netListen srv =
           (srv\<lparr>running := True\<rparr>, [],
            Some (errorString ''Server.PrivateKey must be set to a non-nil key''))
         \<and> (\<forall>n listenUDP' netListen'.
               Start PubkeyID listenUDP' netListen'
                 (((\<lambda>s. fst (Start PubkeyID listenUDP netListen s)) ^^ n) (srv\<lparr>running := True\<rparr>)) =
               (srv\<lparr>running := True\<rparr>, [], Some (errorString ''server already running'')))
         \<and> Stop (srv\<lparr>running := True\<rparr>) =
               (case listener srv of
                  None \<Rightarrow> srv\<lparr>running := False\<rparr>
                | Some l \<Rightarrow> srv\<lparr>running := False, listener := Some (l\<lparr>lis_closed := True\<rparr>)\<rparr>,
                Some CloseOfNilChannel)"
proof -
  let ?s1 = "srv\<lparr>running := True\<rparr>"
  have again: "Start PubkeyID lu nl ?s1 = (?s1, [], Some (errorString ''server already running''))"
    for lu nl
    by (simp add: Start_def)
  have iter: "((\<lambda>s. fst (Start PubkeyID listenUDP netListen s)) ^^ n) ?s1 = ?s1" for n
    by (induction n) (simp_all add: again)
  have first: "Start PubkeyID listenUDP netListen srv =
           (?s1, [], Some (errorString ''Server.PrivateKey must be set to a non-nil key''))"
    using assms by (simp add: Start_def Let_def)
  have stop: "Stop ?s1 =
               (case listener srv of
                  None \<Rightarrow> srv\<lparr>running := False\<rparr>
                | Some l \<Rightarrow> srv\<lparr>running := False, listener := Some (l\<lparr>lis_closed := True\<rparr>)\<rparr>,
                Some CloseOfNilChannel)"
    using assms by (simp add: Stop_def Let_def split: option.splits)
  show ?thesis
    using first stop by (simp add: iter again)
qed

theorem Start_not_atomic_witness:
  "\<not> running example_keyless \<and> PrivateKey example_keyless = None
   \<and> quit example_keyless = ChanNil
   \<and> Start example_PubkeyID (Inl errServerStopped) (Inl errServerStopped) example_keyless =
       (example_keyless\<lparr>running := True\<rparr>, [],
        Some (errorString ''Server.PrivateKey must be set to a non-nil key''))
   \<and> Start example_PubkeyID (Inl errServerStopped) (Inl errServerStopped)
       (example_keyless\<lparr>running := True\<rparr>) =
       (example_keyless\<lparr>running := True\<rparr>, [], Some (errorString ''server already running''))
   \<and> Stop (example_keyless\<lparr>running := True\<rparr>) =
       (example_keyless\<lparr>running := False\<rparr>, Some CloseOfNilChannel)"
proof -
  have h: "\<not> running example_keyless" "PrivateKey example_keyless = None"
    "quit example_keyless = ChanNil" "listener example_keyless = None"
    by (simp_all add: example_keyless_def example_server_def)
  have all: "\<forall>n lu nl.
      Start example_PubkeyID lu nl
        (((\<lambda>s. fst (Start example_PubkeyID (Inl errServerStopped) (Inl errServerStopped) s)) ^^ n)
           (example_keyless\<lparr>running := True\<rparr>)) =
      (example_keyless\<lparr>running := True\<rparr>, [], Some (errorString ''server already running''))"
    using Start_not_atomic [OF h(1) h(2) h(3), of example_PubkeyID
            "Inl errServerStopped" "Inl errServerStopped"]
    by blast
  have again: "Start example_PubkeyID (Inl errServerStopped) (Inl errServerStopped)
       (example_keyless\<lparr>running := True\<rparr>) =
       (example_keyless\<lparr>running := True\<rparr>, [], Some (errorString ''server already running''))"
    using all [rule_format, of "Inl errServerStopped" "Inl errServerStopped" 0] by simp
  show ?thesis
    using Start_not_atomic [OF h(1) h(2) h(3), of example_PubkeyID
            "Inl errServerStopped" "Inl errServerStopped"] again
    by (simp add: h)
qed

lemma Stop_keeps_loopWG:
  "loopWG (fst (Stop srv)) = loopWG srv"
  by (simp add: Stop_def Let_def split: option.splits chan.splits)

text \<open>
  C1. \<^verbatim>\<open>Stop\<close> is documented to block until the workers have exited. On the server that
  \<^verbatim>\<open>Start\<close> has just started, with the run loop registered in the wait group, \<^verbatim>\<open>Stop\<close>
  clears \<^verbatim>\<open>running\<close>, closes \<^verbatim>\<open>quit\<close> and returns: the wait group still counts one
  worker, and nothing in \<^verbatim>\<open>Stop\<close> depends on that counter.
\<close>

theorem Stop_returns_with_worker_registered:
  "Start example_PubkeyID (Inl errServerStopped) (Inl errServerStopped) example_server
     = (example_started, [GoRun [] None 0], None)
   \<and> loopWG example_started = 1
   \<and> Stop example_started = (example_started\<lparr>running := False, quit := ChanClosed\<rparr>, None)
   \<and> loopWG (fst (Stop example_started)) = 1"
proof -
  have st: "Stop example_started = (example_started\<lparr>running := False, quit := ChanClosed\<rparr>, None)"
    by (simp add: Stop_def Let_def example_started_def example_server_def)
  have wg: "loopWG example_started = 1"
    by (simp add: example_started_def)
  show ?thesis
    by (simp add: Start_example_server st wg)
qed

section \<open>Invariants of the run loop\<close>

text \<open>
  The loop reads the server and never writes it, so one server value serves all
  iterations. First, what an accepting verdict of the checks means, and which verdicts
  they can return.
\<close>

lemma enc_accepts:
  assumes "encHandshakeChecks PubkeyID srv ps c = Returns None"
  shows "(conn_is c (trustedConn OR staticDialedConn) \<or> int (card (dom ps)) < MaxPeers srv)
         \<and> ps (id' c) = None
         \<and> (\<exists>self. Self PubkeyID srv = Some self \<and> id' c \<noteq> ID self)"
  using assms
  by (auto simp add: encHandshakeChecks_def split: if_splits option.splits)

lemma proto_accepts:
  assumes "protoHandshakeChecks PubkeyID srv ps c = Returns None"
  shows "encHandshakeChecks PubkeyID srv ps c = Returns None"
  using assms by (simp add: protoHandshakeChecks_def split: if_splits)

lemma enc_verdicts:
  assumes "encHandshakeChecks PubkeyID srv ps c = Returns v"
  shows "v \<noteq> Some (Disc DiscUnexpectedIdentity)"
  using assms by (auto simp add: encHandshakeChecks_def split: if_splits option.splits)

lemma proto_verdicts:
  assumes "protoHandshakeChecks PubkeyID srv ps c = Returns v"
  shows "v \<noteq> Some (Disc DiscUnexpectedIdentity)"
  using assms enc_verdicts [of PubkeyID srv ps c v]
  by (auto simp add: protoHandshakeChecks_def split: if_splits)

lemma scheduleTasks_peers:
  "scheduleTasks dl srv now s = (s1, es) \<Longrightarrow> peers s1 = peers s \<and> trusted s1 = trusted s"
  by (auto simp add: scheduleTasks_def split: if_splits prod.splits)

text \<open>
  How one case of the \<^verbatim>\<open>select\<close> changes the peer map: not at all, by storing the peer of
  a connection that the checks accepted, or by a deletion. The trusted map never changes.
\<close>

lemma select_case_peers:
  assumes "select_case dl PubkeyID srv now ev s = Returns (s', es)"
  shows "trusted s' = trusted s
         \<and> (peers s' = peers s
            \<or> (\<exists>c. ev = Addpeer c \<and> encHandshakeChecks PubkeyID srv (peers s) c = Returns None
                   \<and> peers s' = (peers s)(id' c \<mapsto> newPeer c (Protocols srv)))
            \<or> (\<exists>p. ev = Delpeer p \<and> peers s' = (peers s)(peer_ID p := None)))"
proof (cases ev)
  case (Addpeer c)
  with assms show ?thesis
    by (auto simp add: addpeer_case_def Let_def proto_accepts
             split: outcome.splits option.splits)
next
  case (PeerOp f)
  with assms show ?thesis by (cases f) auto
next
  case (Posthandshake c)
  with assms show ?thesis
    by (auto simp add: posthandshake_case_def Let_def split: outcome.splits)
qed (use assms in auto)

lemma iteration_peers:
  assumes "iteration dl PubkeyID srv inp s = Returns (s', es)"
  shows "trusted s' = trusted s
         \<and> (peers s' = peers s
            \<or> (\<exists>c. encHandshakeChecks PubkeyID srv (peers s) c = Returns None
                   \<and> peers s' = (peers s)(id' c \<mapsto> newPeer c (Protocols srv)))
            \<or> (\<exists>k. peers s' = (peers s)(k := None)))"
proof -
  obtain now now' ev where inp: "inp = (now, now', ev)" by (cases inp)
  obtain s1 es1 where sch: "scheduleTasks dl srv now' s = (s1, es1)" by force
  from sch have p1: "peers s1 = peers s" "trusted s1 = trusted s"
    by (simp_all add: scheduleTasks_peers)
  from assms inp sch obtain es2 where
    sel: "select_case dl PubkeyID srv now ev s1 = Returns (s', es2)"
    by (auto simp add: iteration_def split: outcome.splits)
  from select_case_peers [OF sel] show ?thesis
    unfolding p1 by blast
qed

text \<open>
  Hence a property of the peer map that an accepted connection keeps and that a deletion
  keeps is kept by every iteration, by the spindown, and by the whole loop.
\<close>

lemma iteration_preserves:
  assumes "P (peers s)"
    and store: "\<And>ps c. P ps \<Longrightarrow> encHandshakeChecks PubkeyID srv ps c = Returns None
                  \<Longrightarrow> P (ps(id' c \<mapsto> newPeer c (Protocols srv)))"
    and del: "\<And>ps k. P ps \<Longrightarrow> P (ps(k := None))"
    and "iteration dl PubkeyID srv inp s = Returns (s', es)"
  shows "P (peers s')"
  using iteration_peers [OF assms(4)] assms(1) store del by auto

lemma spindown_preserves:
  assumes del: "\<And>ps k. P ps \<Longrightarrow> P (ps(k := None))"
  shows "P (peers s) \<Longrightarrow> spindown s ps = (s', es) \<Longrightarrow> P (peers s')"
proof (induction ps arbitrary: s s' es)
  case Nil
  then show ?case by simp
next
  case (Cons p ps)
  show ?case
  proof (cases "card (dom (peers s)) > 0")
    case True
    let ?s1 = "s\<lparr>peers := (peers s)(peer_ID p := None)\<rparr>"
    from Cons.prems(2) True obtain es' where sp: "spindown ?s1 ps = (s', es')"
      by (auto split: prod.splits)
    have "P (peers ?s1)" using Cons.prems(1) del by simp
    then show ?thesis using sp by (rule Cons.IH)
  next
    case False
    with Cons.prems show ?thesis by simp
  qed
qed

lemma run_preserves:
  assumes store: "\<And>ps c. P ps \<Longrightarrow> encHandshakeChecks PubkeyID srv ps c = Returns None
                  \<Longrightarrow> P (ps(id' c \<mapsto> newPeer c (Protocols srv)))"
    and del: "\<And>ps k. P ps \<Longrightarrow> P (ps(k := None))"
  shows "P (peers s) \<Longrightarrow> run dl PubkeyID srv s inputs = Returns (s', es) \<Longrightarrow> P (peers s')"
proof (induction inputs arbitrary: s s' es)
  case Nil
  then show ?case by simp
next
  case (Cons inp rest)
  obtain now now' ev where inp: "inp = (now, now', ev)" by (cases inp)
  from Cons.prems(2) inp obtain s1 es1 where
    it: "iteration dl PubkeyID srv (now, now', ev) s = Returns (s1, es1)"
    by (auto split: outcome.splits)
  have p1: "P (peers s1)"
    using Cons.prems(1) store del it by (rule iteration_preserves)
  show ?case
  proof (cases "ev = Quit")
    case True
    from Cons.prems(2) inp it True obtain es2 where "spindown s1 (delpeers rest) = (s', es2)"
      by (auto split: prod.splits)
    with p1 show ?thesis using spindown_preserves [of P, OF del] by blast
  next
    case False
    from Cons.prems(2) inp it False obtain es2 where
      "run dl PubkeyID srv s1 rest = Returns (s', es2)"
      by (auto split: outcome.splits)
    with p1 show ?thesis using Cons.IH by blast
  qed
qed








text \<open>The entries that count against the cap, under a store and under a deletion.\<close>

lemma capped_peers_subset: "capped_peers ps \<subseteq> dom ps"
  by (auto simp add: capped_peers_def split: option.splits)

lemma capped_peers_delete: "capped_peers (ps(k := None)) = capped_peers ps - {k}"
  by (auto simp add: capped_peers_def split: option.splits)

lemma capped_peers_store:
  "capped_peers (ps(k \<mapsto> p)) =
     (if conn_is (rw p) (trustedConn OR staticDialedConn)
      then capped_peers ps - {k} else insert k (capped_peers ps))"
  by (auto simp add: capped_peers_def split: option.splits)

lemma store_cap_inv:
  assumes inv: "cap_inv (MaxPeers srv) ps"
    and acc: "encHandshakeChecks PubkeyID srv ps c = Returns None"
  shows "cap_inv (MaxPeers srv) (ps(id' c \<mapsto> newPeer c protos))"
proof -
  from inv have fin: "finite (dom ps)" and cap: "int (card (capped_peers ps)) \<le> MaxPeers srv"
    by (simp_all add: cap_inv_def)
  from acc have ok: "conn_is c (trustedConn OR staticDialedConn)
                       \<or> int (card (dom ps)) < MaxPeers srv"
    by (simp add: enc_accepts)
  have finc: "finite (capped_peers ps)"
    using fin capped_peers_subset [of ps] by (rule rev_finite_subset)
  have "int (card (capped_peers (ps(id' c \<mapsto> newPeer c protos)))) \<le> MaxPeers srv"
  proof (cases "conn_is c (trustedConn OR staticDialedConn)")
    case True
    have "card (capped_peers ps - {id' c}) \<le> card (capped_peers ps)"
      using finc by (simp add: card_Diff1_le)
    with True cap show ?thesis
      by (simp add: capped_peers_store newPeer_def)
  next
    case False
    with ok have lt: "int (card (dom ps)) < MaxPeers srv" by simp
    have "card (capped_peers ps) \<le> card (dom ps)"
      using fin capped_peers_subset [of ps] by (rule card_mono)
    moreover have "card (insert (id' c) (capped_peers ps)) \<le> Suc (card (capped_peers ps))"
      using finc by (simp add: card_insert_if)
    ultimately show ?thesis
      using False lt by (simp add: capped_peers_store newPeer_def)
  qed
  with fin show ?thesis by (simp add: cap_inv_def)
qed

lemma delete_cap_inv:
  assumes inv: "cap_inv m ps"
  shows "cap_inv m (ps(k := None))"
proof -
  from inv have fin: "finite (dom ps)" and cap: "int (card (capped_peers ps)) \<le> m"
    by (simp_all add: cap_inv_def)
  have finc: "finite (capped_peers ps)"
    using fin capped_peers_subset [of ps] by (rule rev_finite_subset)
  have "card (capped_peers ps - {k}) \<le> card (capped_peers ps)"
    using finc by (simp add: card_Diff1_le)
  with cap fin show ?thesis by (simp add: capped_peers_delete cap_inv_def)
qed

lemma run_init_cap_inv:
  "0 \<le> MaxPeers srv \<Longrightarrow> cap_inv (MaxPeers srv) (peers (run_init srv d))"
  by (simp add: run_init_def cap_inv_def capped_peers_def)

text \<open>
  The started example server handles the two checkpoints of an inbound connection with
  ID 5: the connection is admitted.
\<close>

lemma example_ID_value: "example_PubkeyID \<lparr>X = 1, Y = 2\<rparr> = 2 ^ 256 + 2"
  by (simp add: example_PubkeyID_def)

lemma example_started_fields:
  "MaxPeers example_started = 1"
  "Protocols example_started = [Protocol ''eth'' 65 17]"
  "TrustedNodes example_started = [\<lparr>ID = 7, IP = [10, 0, 0, 7], UDP = 0, TCP = 30303\<rparr>]"
  "running example_started"
  "newTransport example_started"
  "ntab example_started = None"
  by (simp_all add: example_started_def example_server_def)

lemma example_sched:
  "scheduleTasks example_dialer example_started now
     \<lparr>peers = ps, trusted = tr, runningTasks = [], queuedTasks = [], dialstate = ()\<rparr>
   = (\<lparr>peers = ps, trusted = tr, runningTasks = [], queuedTasks = [], dialstate = ()\<rparr>, [])"
  by (simp add: scheduleTasks_def example_dialer_def example_started_fields
        maxActiveDialTasks_def)

lemma example_init:
  "run_init example_started () =
     \<lparr>peers = Map.empty, trusted = [7 \<mapsto> True], runningTasks = [], queuedTasks = [],
      dialstate = ()\<rparr>"
  by (simp add: run_init_def example_started_fields)

lemma example_flags:
  "conn_is (example_conn n) (trustedConn OR staticDialedConn) = False"
  "conn_is example_admitted (trustedConn OR staticDialedConn) = False"
  by (simp_all add: conn_is_def example_conn_def example_admitted_def inboundConn_def
        trustedConn_def staticDialedConn_def)

lemma example_enc_5:
  "encHandshakeChecks example_PubkeyID example_started Map.empty (example_conn 5) = Returns None"
  by (simp add: encHandshakeChecks_def Self_example_started example_ID_value
        example_started_fields example_flags example_conn_def)

lemma example_proto_5:
  "protoHandshakeChecks example_PubkeyID example_started Map.empty example_admitted = Returns None"
  by (simp add: protoHandshakeChecks_def countMatchingProtocols_def encHandshakeChecks_def
        Self_example_started example_ID_value example_started_fields example_flags
        example_conn_def example_admitted_def)

lemma example_iteration_1:
  "iteration example_dialer example_PubkeyID example_started (10, 11, Posthandshake (example_conn 5))
     (run_init example_started ())
   = Returns (run_init example_started (), [Send_cont (example_conn 5) None])"
proof -
  have i: "id' (example_conn 5) = 5"
    by (simp add: example_conn_def)
  show ?thesis
    by (simp add: iteration_def example_init example_sched posthandshake_case_def
          set_trusted_flag_def example_enc_5 i Let_def)
qed

lemma example_iteration_2:
  "iteration example_dialer example_PubkeyID example_started (20, 21, Addpeer example_admitted)
     (run_init example_started ())
   = Returns (example_state,
       [Store_peer 5 (newPeer example_admitted [Protocol ''eth'' 65 17]), WG_Add,
        Go_runPeer (newPeer example_admitted [Protocol ''eth'' 65 17]),
        Send_cont example_admitted None])"
proof -
  have i: "id' example_admitted = 5"
    by (simp add: example_admitted_def example_conn_def)
  show ?thesis
    by (simp add: iteration_def example_init example_sched addpeer_case_def example_proto_5
          example_started_fields example_state_def i Let_def)
qed

lemma example_run:
  "run example_dialer example_PubkeyID example_started (run_init example_started ())
     example_inputs
   = Returns (example_state, example_effects)"
  by (simp add: example_inputs_def example_effects_def example_iteration_1 example_iteration_2)

text \<open>
  C2. With \<^verbatim>\<open>MaxPeers\<close> not negative (the configuration requires it to be positive), every
  state that the run loop reaches from its initial state, whatever it receives and
  whatever the dialer does, holds at most \<^verbatim>\<open>MaxPeers\<close> peers whose connection is neither
  trusted nor static-dialed; and every further iteration from such a state, for any event
  (addpeer, delpeer, posthandshake, taskdone, addstatic, peerOp, quit), leads to a state
  within the cap again.
\<close>

theorem peers_within_cap:
  assumes "0 \<le> MaxPeers srv"
    and "run dl PubkeyID srv (run_init srv d) inputs = Returns (s, es)"
  shows "finite (dom (peers s)) \<and> within_cap srv s
         \<and> (\<forall>inp s' es'. iteration dl PubkeyID srv inp s = Returns (s', es')
               \<longrightarrow> finite (dom (peers s')) \<and> within_cap srv s')"
proof -
  have inv: "cap_inv (MaxPeers srv) (peers s)"
    by (rule run_preserves [where P = "cap_inv (MaxPeers srv)", OF _ _ _ assms(2)])
       (simp_all add: store_cap_inv delete_cap_inv run_init_cap_inv [OF assms(1)])
  have "cap_inv (MaxPeers srv) (peers s')"
    if "iteration dl PubkeyID srv inp s = Returns (s', es')" for inp s' es'
    by (rule iteration_preserves [where P = "cap_inv (MaxPeers srv)", OF inv _ _ that])
       (simp_all add: store_cap_inv delete_cap_inv)
  with inv show ?thesis
    by (auto simp add: cap_inv_def within_cap_def)
qed

theorem peers_within_cap_witness:
  "0 \<le> MaxPeers example_started
   \<and> run example_dialer example_PubkeyID example_started (run_init example_started ())
       example_inputs = Returns (example_state, example_effects)
   \<and> within_cap example_started example_state
   \<and> iteration example_dialer example_PubkeyID example_started
        (30, 31, Delpeer (newPeer example_admitted [])) example_state
       = Returns (example_state\<lparr>peers := Map.empty\<rparr>, [Delete_peer 5])
   \<and> within_cap example_started (example_state\<lparr>peers := Map.empty\<rparr>)"
proof -
  have h: "0 \<le> MaxPeers example_started"
    by (simp add: example_started_fields)
  have it: "iteration example_dialer example_PubkeyID example_started
              (30, 31, Delpeer (newPeer example_admitted [])) example_state
            = Returns (example_state\<lparr>peers := Map.empty\<rparr>, [Delete_peer 5])"
    by (simp add: iteration_def example_state_def example_sched peer_ID_def newPeer_def
          example_admitted_def example_conn_def)
  from peers_within_cap [OF h example_run]
  have "within_cap example_started example_state"
    and "within_cap example_started (example_state\<lparr>peers := Map.empty\<rparr>)"
    using it by blast+
  with h it show ?thesis
    by (simp add: example_run)
qed


text \<open>
  The ID of the node that \<^verbatim>\<open>Self\<close> returns: the ID of the key while the server runs
  without discovery, the zero ID once \<^verbatim>\<open>running\<close> is false.
\<close>

lemma Self_ID_running:
  assumes "running srv" and "ntab srv = None" and "PrivateKey srv = Some prv"
  shows "map_option ID (Self PubkeyID srv) = Some (PubkeyID (PublicKey prv))"
  using assms by (simp add: Self_def split: option.splits)

lemma Self_ID_stopped:
  assumes "\<not> running srv"
  shows "map_option ID (Self PubkeyID srv) = Some 0"
  using assms by (simp add: Self_def)












text \<open>\<^verbatim>\<open>scheduleTasks\<close> only starts tasks: its effects are wait-group and task entries.\<close>

lemma startTasks_effects:
  "startTasks rt ts = (rt', rest, es) \<Longrightarrow> set es \<subseteq> insert WG_Add (range Go_task)"
proof (induction ts arbitrary: rt rt' rest es)
  case Nil
  then show ?case by simp
next
  case (Cons t ts)
  show ?case
  proof (cases "length rt < maxActiveDialTasks")
    case True
    with Cons.prems obtain es' where
      st: "startTasks (rt @ [t]) ts = (rt', rest, es')" and es: "es = WG_Add # Go_task t # es'"
      by (auto split: prod.splits)
    from Cons.IH [OF st] es show ?thesis by auto
  next
    case False
    with Cons.prems show ?thesis by simp
  qed
qed

lemma scheduleTasks_effects:
  assumes "scheduleTasks dl srv now s = (s1, es)"
  shows "set es \<subseteq> insert WG_Add (range Go_task)"
proof (cases "running srv")
  case False
  with assms show ?thesis by (simp add: scheduleTasks_def)
next
  case True
  obtain rt1 rest1 es1 where st1: "startTasks (runningTasks s) (queuedTasks s) = (rt1, rest1, es1)"
    by (metis prod_cases3)
  note e1 = startTasks_effects [OF st1]
  show ?thesis
  proof (cases "length rt1 < maxActiveDialTasks")
    case False
    with assms True st1 e1 show ?thesis by (simp add: scheduleTasks_def)
  next
    case lt: True
    obtain nt d' where nt: "newTasks dl (dialstate s) (int (length rt1) + int (length rest1))
                              (peers s) now = (nt, d')"
      by force
    obtain rt2 rest2 es2 where st2: "startTasks rt1 nt = (rt2, rest2, es2)"
      by (metis prod_cases3)
    note e2 = startTasks_effects [OF st2]
    from assms True st1 lt nt st2 have "es = es1 @ es2"
      by (simp add: scheduleTasks_def)
    with e1 e2 show ?thesis by auto
  qed
qed

text \<open>
  C5. In an iteration that handles \<^verbatim>\<open>addpeer\<close>, the send of the verdict on the reply
  channel of the connection is the last effect, and the only send on a reply channel.
  When the verdict is \<^verbatim>\<open>nil\<close>, the three effects just before it are the store of the new
  peer in the map, the registration in the wait group and the start of the peer's driver,
  and the map afterwards holds the peer; when the verdict is an error, the map is
  unchanged and no peer is stored or started.
\<close>

theorem addpeer_verdict_last:
  assumes "iteration dl PubkeyID srv (now, now', Addpeer c) s = Returns (s', es)"
  shows "\<exists>pre v. es = pre @ [Send_cont c v]
           \<and> protoHandshakeChecks PubkeyID srv (peers s) c = Returns v
           \<and> (\<forall>c' v'. Send_cont c' v' \<notin> set pre)
           \<and> (v = None \<longrightarrow>
                (\<exists>pre'. pre = pre' @ [Store_peer (id' c) (newPeer c (Protocols srv)), WG_Add,
                                       Go_runPeer (newPeer c (Protocols srv))])
                \<and> peers s' = (peers s)(id' c \<mapsto> newPeer c (Protocols srv)))
           \<and> (v \<noteq> None \<longrightarrow>
                peers s' = peers s \<and> (\<forall>k p. Store_peer k p \<notin> set pre)
                \<and> (\<forall>p. Go_runPeer p \<notin> set pre))"
proof -
  obtain s1 es1 where sch: "scheduleTasks dl srv now' s = (s1, es1)" by force
  from sch have p1: "peers s1 = peers s" by (simp add: scheduleTasks_peers)
  note e1 = scheduleTasks_effects [OF sch]
  from assms sch obtain es2 where
    sel: "addpeer_case PubkeyID srv s1 c = Returns (s', es2)" and es: "es = es1 @ es2"
    by (auto simp add: iteration_def split: outcome.splits)
  from sel obtain v where v: "protoHandshakeChecks PubkeyID srv (peers s) c = Returns v"
    unfolding p1 [symmetric] by (auto simp add: addpeer_case_def split: outcome.splits)
  let ?p = "newPeer c (Protocols srv)"
  show ?thesis
  proof (cases v)
    case None
    from sel v None have "es2 = [Store_peer (id' c) ?p, WG_Add, Go_runPeer ?p, Send_cont c None]"
      and "peers s' = (peers s)(id' c \<mapsto> ?p)"
      by (auto simp add: addpeer_case_def p1 Let_def)
    with es e1 v None show ?thesis
      by (intro exI [of _ "es1 @ [Store_peer (id' c) ?p, WG_Add, Go_runPeer ?p]"] exI [of _ v])
         auto
  next
    case (Some e)
    from sel v Some p1 have "es2 = [Send_cont c (Some e)]" and "peers s' = peers s"
      by (auto simp add: addpeer_case_def)
    with es e1 v Some show ?thesis
      by (intro exI [of _ es1] exI [of _ v]) auto
  qed
qed

theorem addpeer_verdict_last_witness:
  "iteration example_dialer example_PubkeyID example_started (20, 21, Addpeer example_admitted)
     (run_init example_started ())
   = Returns (example_state,
       [Store_peer 5 (newPeer example_admitted [Protocol ''eth'' 65 17]), WG_Add,
        Go_runPeer (newPeer example_admitted [Protocol ''eth'' 65 17]),
        Send_cont example_admitted None])
   \<and> protoHandshakeChecks example_PubkeyID example_started
        (peers (run_init example_started () :: (unit, nat) run_state)) example_admitted
       = Returns None
   \<and> peers example_state =
        (peers (run_init example_started () :: (unit, nat) run_state))
          (id' example_admitted \<mapsto> newPeer example_admitted (Protocols example_started))"
  using addpeer_verdict_last [OF example_iteration_2]
  by (auto simp add: example_iteration_2)

text \<open>A connection with the trusted flag set is exempt from the cap at both checkpoints.\<close>

lemma trusted_flag_set:
  "conn_is (c\<lparr>flags := flags c OR trustedConn\<rparr>) (trustedConn OR staticDialedConn)"
proof -
  have "(flags c OR trustedConn) AND trustedConn = trustedConn"
    by (auto simp add: bit_eq_iff bit_and_iff bit_or_iff)
  moreover have "trustedConn \<noteq> 0"
    by (simp add: trustedConn_def)
  ultimately show ?thesis
    by (simp add: conn_is_trusted_or_static)
qed

lemma trusted_conn_not_capped:
  assumes "conn_is c (trustedConn OR staticDialedConn)"
  shows "encHandshakeChecks PubkeyID srv ps c \<noteq> Returns (Some (Disc DiscTooManyPeers))"
    and "protoHandshakeChecks PubkeyID srv ps c \<noteq> Returns (Some (Disc DiscTooManyPeers))"
  using assms
  by (auto simp add: encHandshakeChecks_def protoHandshakeChecks_def split: option.splits)

text \<open>
  C6. When the learned ID of a connection is in the trusted map, the \<^verbatim>\<open>posthandshake\<close>
  case evaluates \<^verbatim>\<open>encHandshakeChecks\<close> on the connection with the trusted flag already
  OR-ed into its flags, and replies with that connection. So neither that check nor the
  check at \<^verbatim>\<open>addpeer\<close> on the same connection (with whatever capabilities and name the
  protocol handshake filled in, against whatever peer map) returns \<^verbatim>\<open>DiscTooManyPeers\<close>.
  And with \<^verbatim>\<open>MaxPeers = 1\<close> and a peer map holding one non-trusted peer, an inbound
  connection with a trusted ID (other than that peer's and the server's own, and with a
  matching protocol if any is configured) passes both checkpoints: the peer map then has
  two entries.
\<close>

theorem trusted_flag_before_cap:
  assumes tr: "trusted s (id' c) = Some True"
  shows "posthandshake_case PubkeyID srv s c =
           (case encHandshakeChecks PubkeyID srv (peers s) (c\<lparr>flags := flags c OR trustedConn\<rparr>) of
              Panics \<Rightarrow> Panics
            | Returns v \<Rightarrow> Returns (s, [Send_cont (c\<lparr>flags := flags c OR trustedConn\<rparr>) v]))
         \<and> encHandshakeChecks PubkeyID srv (peers s) (c\<lparr>flags := flags c OR trustedConn\<rparr>)
             \<noteq> Returns (Some (Disc DiscTooManyPeers))
         \<and> (\<forall>ps cps nm.
               protoHandshakeChecks PubkeyID srv ps
                 (c\<lparr>flags := flags c OR trustedConn, caps := cps, name := nm\<rparr>)
               \<noteq> Returns (Some (Disc DiscTooManyPeers)))
         \<and> (MaxPeers srv = 1 \<and> peers s = [k \<mapsto> p] \<and> \<not> conn_is (rw p) trustedConn
              \<and> trusted s k \<noteq> Some True \<and> flags c = inboundConn
              \<and> Self PubkeyID srv = Some self \<and> id' c \<noteq> ID self
              \<and> (Protocols srv = [] \<or> set (map cap (Protocols srv)) \<inter> set cps \<noteq> {})
              \<longrightarrow> (\<exists>s' es.
                     run dl PubkeyID srv s
                       [(t1, t1', Posthandshake c),
                        (t2, t2', Addpeer (c\<lparr>flags := flags c OR trustedConn, caps := cps,
                                             name := nm\<rparr>))]
                       = Returns (s', es)
                     \<and> Send_cont (c\<lparr>flags := flags c OR trustedConn\<rparr>) None \<in> set es
                     \<and> Send_cont (c\<lparr>flags := flags c OR trustedConn, caps := cps, name := nm\<rparr>) None
                          \<in> set es
                     \<and> peers s' =
                          [k \<mapsto> p,
                           id' c \<mapsto> newPeer (c\<lparr>flags := flags c OR trustedConn, caps := cps,
                                                   name := nm\<rparr>) (Protocols srv)]
                     \<and> card (dom (peers s')) = 2))"
proof -
  let ?c2 = "c\<lparr>flags := flags c OR trustedConn\<rparr>"
  let ?c3 = "c\<lparr>flags := flags c OR trustedConn, caps := cps, name := nm\<rparr>"
  have flag: "set_trusted_flag s c = ?c2"
    using tr by (simp add: set_trusted_flag_def)
  have post: "posthandshake_case PubkeyID srv s c =
           (case encHandshakeChecks PubkeyID srv (peers s) ?c2 of
              Panics \<Rightarrow> Panics
            | Returns v \<Rightarrow> Returns (s, [Send_cont ?c2 v]))"
    by (simp add: posthandshake_case_def flag Let_def)
  have ex2: "conn_is ?c2 (trustedConn OR staticDialedConn)"
    by (rule trusted_flag_set)
  have ex3: "conn_is (c\<lparr>flags := flags c OR trustedConn, caps := x, name := y\<rparr>)
               (trustedConn OR staticDialedConn)" for x y
    using ex2 by (simp add: conn_is_def)
  note no2 = trusted_conn_not_capped(1) [OF ex2, of PubkeyID srv "peers s"]
  have no3: "protoHandshakeChecks PubkeyID srv ps
               (c\<lparr>flags := flags c OR trustedConn, caps := x, name := y\<rparr>)
             \<noteq> Returns (Some (Disc DiscTooManyPeers))" for ps x y
    by (rule trusted_conn_not_capped(2) [OF ex3])
  have scen: "\<exists>s' es.
         run dl PubkeyID srv s [(t1, t1', Posthandshake c), (t2, t2', Addpeer ?c3)] = Returns (s', es)
         \<and> Send_cont ?c2 None \<in> set es \<and> Send_cont ?c3 None \<in> set es
         \<and> peers s' = [k \<mapsto> p, id' c \<mapsto> newPeer ?c3 (Protocols srv)]
         \<and> card (dom (peers s')) = 2"
    if h: "MaxPeers srv = 1" "peers s = [k \<mapsto> p]" "trusted s k \<noteq> Some True"
      "Self PubkeyID srv = Some self" "id' c \<noteq> ID self"
      "Protocols srv = [] \<or> set (map cap (Protocols srv)) \<inter> set cps \<noteq> {}"
  proof -
    from tr h(3) have ne: "id' c \<noteq> k" by auto
    obtain s1 es1 where sch1: "scheduleTasks dl srv t1' s = (s1, es1)" by force
    from sch1 have p1: "peers s1 = peers s" "trusted s1 = trusted s"
      by (simp_all add: scheduleTasks_peers)
    have flag1: "set_trusted_flag s1 c = ?c2"
      using tr p1 by (simp add: set_trusted_flag_def)
    have enc2: "encHandshakeChecks PubkeyID srv ps' ?c2 = Returns None" if "ps' = [k \<mapsto> p]" for ps'
      using ex2 h ne that by (simp add: encHandshakeChecks_def)
    have it1: "iteration dl PubkeyID srv (t1, t1', Posthandshake c) s
                 = Returns (s1, es1 @ [Send_cont ?c2 None])"
      using sch1 enc2 [of "peers s1"] p1 h(2)
      by (simp add: iteration_def posthandshake_case_def flag1)
    obtain s2 es2 where sch2: "scheduleTasks dl srv t2' s1 = (s2, es2)" by force
    from sch2 have p2: "peers s2 = peers s1"
      by (simp add: scheduleTasks_peers)
    have enc3: "encHandshakeChecks PubkeyID srv (peers s2) ?c3 = Returns None"
      using ex3 [where x = cps and y = nm] h ne p1 p2 by (simp add: encHandshakeChecks_def)
    have proto3: "protoHandshakeChecks PubkeyID srv (peers s2) ?c3 = Returns None"
      using enc3 h(6) by (auto simp add: protoHandshakeChecks_def countMatchingProtocols_zero)
    let ?s3 = "s2\<lparr>peers := (peers s2)(id' c \<mapsto> newPeer ?c3 (Protocols srv))\<rparr>"
    have it2: "iteration dl PubkeyID srv (t2, t2', Addpeer ?c3) s1
                 = Returns (?s3, es2 @ [Store_peer (id' c) (newPeer ?c3 (Protocols srv)), WG_Add,
                                         Go_runPeer (newPeer ?c3 (Protocols srv)),
                                         Send_cont ?c3 None])"
      using sch2 proto3 by (simp add: iteration_def addpeer_case_def Let_def)
    have r: "run dl PubkeyID srv s [(t1, t1', Posthandshake c), (t2, t2', Addpeer ?c3)]
               = Returns (?s3, (es1 @ [Send_cont ?c2 None])
                               @ (es2 @ [Store_peer (id' c) (newPeer ?c3 (Protocols srv)), WG_Add,
                                         Go_runPeer (newPeer ?c3 (Protocols srv)),
                                         Send_cont ?c3 None]) @ [])"
      by (simp add: it1 it2)
    have ps3: "peers ?s3 = [k \<mapsto> p, id' c \<mapsto> newPeer ?c3 (Protocols srv)]"
      using p1 p2 h(2) by simp
    have "card (dom (peers ?s3)) = 2"
      using ne by (simp add: ps3)
    with r ps3 show ?thesis
      by (intro exI conjI) (rule r, simp_all)
  qed
  show ?thesis
    using post no2 no3 scen by blast
qed

theorem trusted_flag_before_cap_witness:
  "trusted example_state (id' (example_conn 7)) = Some True
   \<and> encHandshakeChecks example_PubkeyID example_started (peers example_state)
        ((example_conn 7)\<lparr>flags := flags (example_conn 7) OR trustedConn\<rparr>)
       \<noteq> Returns (Some (Disc DiscTooManyPeers))
   \<and> (\<exists>s' es.
         run example_dialer example_PubkeyID example_started example_state
           [(30, 31, Posthandshake (example_conn 7)), (40, 41, Addpeer example_trusted)]
           = Returns (s', es)
         \<and> peers s' =
             [5 \<mapsto> newPeer example_admitted [Protocol ''eth'' 65 17],
              7 \<mapsto> newPeer example_trusted [Protocol ''eth'' 65 17]]
         \<and> card (dom (peers s')) = 2)"
proof -
  have h: "trusted example_state (id' (example_conn 7)) = Some True"
    by (simp add: example_state_def example_conn_def)
  have scen: "MaxPeers example_started = 1
      \<and> peers example_state = [5 \<mapsto> newPeer example_admitted [Protocol ''eth'' 65 17]]
      \<and> \<not> conn_is (rw (newPeer example_admitted [Protocol ''eth'' 65 17])) trustedConn
      \<and> trusted example_state 5 \<noteq> Some True \<and> flags (example_conn 7) = inboundConn
      \<and> Self example_PubkeyID example_started =
          Some \<lparr>ID = example_PubkeyID \<lparr>X = 1, Y = 2\<rparr>, IP = zeroIP, UDP = 0, TCP = 0\<rparr>
      \<and> id' (example_conn 7)
          \<noteq> ID \<lparr>ID = example_PubkeyID \<lparr>X = 1, Y = 2\<rparr>, IP = zeroIP, UDP = 0, TCP = 0\<rparr>
      \<and> (Protocols example_started = []
          \<or> set (map cap (Protocols example_started)) \<inter> set [Cap ''eth'' 65] \<noteq> {})"
    by (simp add: example_started_fields example_state_def Self_example_started
          example_ID_value example_conn_def example_admitted_def newPeer_def conn_is_def
          inboundConn_def trustedConn_def cap_def)
  have i: "id' (example_conn 7) = 7" "Protocols example_started = [Protocol ''eth'' 65 17]"
    by (simp_all add: example_conn_def example_started_fields)
  note T = trusted_flag_before_cap [OF h, of example_PubkeyID example_started 5
         "newPeer example_admitted [Protocol ''eth'' 65 17]"
         "\<lparr>ID = example_PubkeyID \<lparr>X = 1, Y = 2\<rparr>, IP = zeroIP, UDP = 0, TCP = 0\<rparr>"
         "[Cap ''eth'' 65]" example_dialer 30 31 40 41 "''seven''"]
  note t2 = T [THEN conjunct2, THEN conjunct1]
  note t4 = T [THEN conjunct2, THEN conjunct2, THEN conjunct2, rule_format, OF scen]
  from t4 have "\<exists>s' es.
         run example_dialer example_PubkeyID example_started example_state
           [(30, 31, Posthandshake (example_conn 7)), (40, 41, Addpeer example_trusted)]
           = Returns (s', es)
         \<and> peers s' =
             [5 \<mapsto> newPeer example_admitted [Protocol ''eth'' 65 17],
              7 \<mapsto> newPeer example_trusted [Protocol ''eth'' 65 17]]
         \<and> card (dom (peers s')) = 2"
    unfolding example_trusted_def i by blast
  with h t2 show ?thesis
    by blast
qed

section \<open>Properties of the setup driver\<close>

text \<open>
  A checkpoint returns the connection with the same ID, and the run loop never replies
  with \<^verbatim>\<open>DiscUnexpectedIdentity\<close>.
\<close>

lemma set_trusted_flag_id: "id' (set_trusted_flag s c) = id' c"
  by (simp add: set_trusted_flag_def)

lemma checkpoint_reply:
  assumes "checkpoint PubkeyID srv c st r = Returns (c', v)"
  shows "id' c' = id' c \<and> v \<noteq> Some (Disc DiscUnexpectedIdentity)"
proof (cases r)
  case Stopped
  with assms show ?thesis by (auto simp add: checkpoint_def)
next
  case (Handled s)
  show ?thesis
  proof (cases st)
    case Stage_posthandshake
    with assms Handled show ?thesis
      by (auto simp add: checkpoint_def posthandshake_case_def Let_def set_trusted_flag_id
               split: outcome.splits dest: enc_verdicts)
  next
    case Stage_addpeer
    with assms Handled show ?thesis
      by (auto simp add: checkpoint_def addpeer_case_def Let_def
               split: outcome.splits option.splits dest: proto_verdicts)
  qed
qed

text \<open>
  C8, as the code has it. \<^verbatim>\<open>setupConn\<close> closes the connection with
  \<^verbatim>\<open>DiscUnexpectedIdentity\<close> in the two identity-mismatch cases: after a successful
  encryption handshake of a dialed connection whose learned ID differs from the ID of the
  dialed node, and after a successful protocol handshake that advertises an ID different
  from the learned one. In the first case nothing follows the encryption handshake but
  the close, so no checkpoint is reached; in the second nothing follows the protocol
  handshake but the close, so the \<^verbatim>\<open>addpeer\<close> checkpoint is not reached. The only other
  closes with that reason pass on an error of the transport: a handshake that itself
  returns \<^verbatim>\<open>DiscUnexpectedIdentity\<close> as its error.
\<close>

theorem setupConn_unexpected_identity:
  assumes "setupConn PubkeyID srv fd0 fl dialDest enc proto r1 r2 = Returns tr"
  shows "(Conn_close (Disc DiscUnexpectedIdentity) \<in> set tr \<longleftrightarrow>
            running srv \<and>
            (snd enc = Some (Disc DiscUnexpectedIdentity)
             \<or> snd enc = None \<and> dial_identity_mismatch dialDest (fst enc)
             \<or> DoProtoHandshake \<in> set tr
                \<and> (proto = Inl (Disc DiscUnexpectedIdentity)
                   \<or> proto_identity_mismatch proto (fst enc))))
         \<and> (running srv \<and> snd enc = None \<and> dial_identity_mismatch dialDest (fst enc)
              \<longrightarrow> tr = [New_transport, Go_watchdog, DoEncHandshake,
                        Conn_close (Disc DiscUnexpectedIdentity)])
         \<and> (DoProtoHandshake \<in> set tr \<and> proto_identity_mismatch proto (fst enc)
              \<longrightarrow> tr = [New_transport, Go_watchdog, DoEncHandshake,
                        Checkpoint Stage_posthandshake, DoProtoHandshake,
                        Conn_close (Disc DiscUnexpectedIdentity)])"
proof -
  from assms have nt: "newTransport srv"
    by (auto simp add: setupConn_def split: if_splits)
  show ?thesis
  proof (cases "running srv")
    case False
    with assms nt show ?thesis by (auto simp add: setupConn_def)
  next
    case run: True
    let ?c1 = "\<lparr>fd = fd0, flags = fl, id' = fst enc, caps = [], name = []\<rparr>"
    have cond: "(case dialDest of None \<Rightarrow> False | Some n \<Rightarrow> id' ?c1 \<noteq> ID n)
                  = dial_identity_mismatch dialDest (fst enc)"
      by (cases dialDest) (simp_all add: dial_identity_mismatch_def)
    show ?thesis
    proof (cases "snd enc")
      case (Some err)
      with assms nt run show ?thesis by (auto simp add: setupConn_def Let_def cond)
    next
      case None
      show ?thesis
      proof (cases "dial_identity_mismatch dialDest (fst enc)")
        case True
        with assms nt run None show ?thesis
          by (auto simp add: setupConn_def Let_def cond)
      next
        case nomis: False
        note nomis' = nomis
        from assms nt run None nomis' obtain c2 v1 where
          cp1: "checkpoint PubkeyID srv ?c1 Stage_posthandshake r1 = Returns (c2, v1)"
          by (auto simp add: setupConn_def Let_def cond split: outcome.splits prod.splits)
        from checkpoint_reply [OF cp1] have id2: "id' c2 = fst enc"
          and v1: "v1 \<noteq> Some (Disc DiscUnexpectedIdentity)" by simp_all
        show ?thesis
        proof (cases v1)
          case (Some err)
          with assms nt run None nomis nomis' cp1 v1 show ?thesis
            by (auto simp add: setupConn_def Let_def cond)
        next
          case ok1: None
          show ?thesis
          proof (cases proto)
            case (Inl err)
            with assms nt run None nomis nomis' cp1 ok1 show ?thesis
              by (auto simp add: setupConn_def Let_def cond proto_identity_mismatch_def)
          next
            case (Inr phs)
            show ?thesis
            proof (cases "hs_ID phs \<noteq> fst enc")
              case True
              with assms nt run None nomis nomis' cp1 ok1 Inr id2 show ?thesis
                by (auto simp add: setupConn_def Let_def cond proto_identity_mismatch_def)
            next
              case False
              let ?c3 = "c2\<lparr>caps := hs_Caps phs, name := hs_Name phs\<rparr>"
              from assms nt run None nomis' cp1 ok1 Inr id2 False obtain c4 v2 where
                cp2: "checkpoint PubkeyID srv ?c3 Stage_addpeer r2 = Returns (c4, v2)"
                by (auto simp add: setupConn_def Let_def cond split: outcome.splits prod.splits)
              from checkpoint_reply [OF cp2]
              have v2: "v2 \<noteq> Some (Disc DiscUnexpectedIdentity)" by simp
              from assms nt run None nomis nomis' cp1 ok1 Inr id2 False cp2 v2 show ?thesis
                by (cases v2) (auto simp add: setupConn_def Let_def cond proto_identity_mismatch_def)
            qed
          qed
        qed
      qed
    qed
  qed
qed

theorem setupConn_unexpected_identity_witness:
  "setupConn example_PubkeyID example_started 3 staticDialedConn
      (Some \<lparr>ID = 7, IP = [10, 0, 0, 7], UDP = 0, TCP = 30303\<rparr>)
      (9, None) (Inl errServerStopped) (Stopped :: (unit, nat) rendezvous) Stopped
     = Returns [New_transport, Go_watchdog, DoEncHandshake,
                Conn_close (Disc DiscUnexpectedIdentity)]
   \<and> dial_identity_mismatch (Some \<lparr>ID = 7, IP = [10, 0, 0, 7], UDP = 0, TCP = 30303\<rparr>) 9
   \<and> Conn_close (Disc DiscUnexpectedIdentity)
       \<in> set [New_transport, Go_watchdog, DoEncHandshake,
               Conn_close (Disc DiscUnexpectedIdentity)]"
proof -
  have r: "setupConn example_PubkeyID example_started 3 staticDialedConn
      (Some \<lparr>ID = 7, IP = [10, 0, 0, 7], UDP = 0, TCP = 30303\<rparr>)
      (9, None) (Inl errServerStopped) (Stopped :: (unit, nat) rendezvous) Stopped
     = Returns [New_transport, Go_watchdog, DoEncHandshake,
                Conn_close (Disc DiscUnexpectedIdentity)]"
    by (simp add: setupConn_def example_started_fields)
  have m: "dial_identity_mismatch (Some \<lparr>ID = 7, IP = [10, 0, 0, 7], UDP = 0, TCP = 30303\<rparr>) 9"
    by (simp add: dial_identity_mismatch_def)
  from setupConn_unexpected_identity [OF r] m show ?thesis
    by (simp add: r example_started_fields)
qed

text \<open>
  The two mismatch cases are not the only ones: here the connection is inbound, its
  protocol handshake fails with the error \<^verbatim>\<open>DiscUnexpectedIdentity\<close> (as when the remote
  side disconnects with that reason), and \<^verbatim>\<open>setupConn\<close> closes with it.
\<close>

theorem setupConn_unexpected_identity_counterexample:
  "setupConn example_PubkeyID example_started 3 inboundConn None
      (9, None) (Inl (Disc DiscUnexpectedIdentity))
      (Handled (run_init example_started () :: (unit, nat) run_state)) Stopped
     = Returns [New_transport, Go_watchdog, DoEncHandshake, Checkpoint Stage_posthandshake,
                DoProtoHandshake, Conn_close (Disc DiscUnexpectedIdentity)]
   \<and> \<not> dial_identity_mismatch None 9
   \<and> \<not> proto_identity_mismatch (Inl (Disc DiscUnexpectedIdentity)) 9"
proof -
  have c: "\<lparr>fd = 3, flags = inboundConn, id' = 9, caps = [], name = []\<rparr> = example_conn 9"
    by (simp add: example_conn_def)
  have e: "encHandshakeChecks example_PubkeyID example_started Map.empty (example_conn 9)
             = Returns None"
    by (simp add: encHandshakeChecks_def Self_example_started example_ID_value
          example_started_fields example_flags example_conn_def)
  have i9: "id' (example_conn 9) = 9"
    by (simp add: example_conn_def)
  have cp: "checkpoint example_PubkeyID example_started (example_conn 9) Stage_posthandshake
              (Handled (run_init example_started () :: (unit, nat) run_state))
            = Returns (example_conn 9, None)"
    by (simp add: checkpoint_def posthandshake_case_def example_init set_trusted_flag_def
          e Let_def i9)
  show ?thesis
    by (simp add: setupConn_def example_started_fields c cp dial_identity_mismatch_def
          proto_identity_mismatch_def)
qed

end
